theory Spec2Isabelle
  imports Main
begin

section \<open>Shared data: errors, messages, documents\<close>

text \<open>
  Python exceptions are values. \<open>ValueError\<close> is the one exception the repository raises
  itself (vector_store.py); \<open>OSError\<close> is what \<open>open\<close> raises on an unreadable file;
  \<open>KeyError\<close> and \<open>AttributeError\<close> are raised by the interpreter; \<open>Exception\<close> stands for
  whatever an external service (retriever, language model, extractor, embedding) raises.
\<close>

datatype error = ValueError | OSError | KeyError | AttributeError | Exception string

datatype role = User | Assistant

text \<open>A history entry \<open>{"role": ..., "content": ...}\<close>.\<close>

record message =
  role :: role
  content :: string

text \<open>
  A langchain \<open>Document\<close>: its text and the metadata keys the repository reads or writes
  (\<open>source_file\<close>, \<open>file_path\<close>, \<open>page\<close>); \<open>None\<close> is an absent key.
\<close>

record document =
  page_content :: string
  source_file :: "string option"
  file_path :: "string option"
  page :: "int option"

text \<open>One entry of the \<open>sources\<close> list: \<open>{"file": ...}\<close> with an optional \<open>"page"\<close>.\<close>

record source_info =
  file_name :: string
  page_no :: "int option"

text \<open>The default of \<open>doc.metadata.get("source_file", ...)\<close>, as its UTF-8 bytes.\<close>

definition unknown_file :: string where
  "unknown_file = map char_of
     [0xE6, 0x9C, 0xAA, 0xE7, 0x9F, 0xA5, 0xE6, 0x96, 0x87, 0xE4, 0xBB, 0xB6 :: nat]"

text \<open>The labels of a rendered turn, \<open>"<user>: "\<close> and \<open>"<assistant>: "\<close>, as UTF-8 bytes.\<close>

definition user_label :: string where
  "user_label = map char_of [0xE7, 0x94, 0xA8, 0xE6, 0x88, 0xB7 :: nat] @ '': ''"

definition assistant_label :: string where
  "assistant_label = map char_of [0xE5, 0x8A, 0xA9, 0xE6, 0x89, 0x8B :: nat] @ '': ''"

definition newline :: string where
  "newline = [CHR 0x0A]"

text \<open>Python's \<open>sep.join(xs)\<close>.\<close>

fun join :: "string \<Rightarrow> string list \<Rightarrow> string" where
  "join sep [] = []"
| "join sep [x] = x"
| "join sep (x # y # ys) = x @ sep @ join sep (y # ys)"

text \<open>
  The loop that builds the \<open>sources\<close> list, the same in \<open>query\<close> (lines 189-195) and in
  \<open>generate\<close> (lines 259-265).
\<close>

definition format_sources :: "document list \<Rightarrow> source_info list" where
  "format_sources docs =
     map (\<lambda>doc. \<lparr>file_name = (case source_file doc of None \<Rightarrow> unknown_file | Some f \<Rightarrow> f),
                 page_no = page doc\<rparr>) docs"

section \<open>The session store and the two answer pipelines (app.py, qa_chain.py)\<close>

text \<open>
  The inputs of the prompt template: \<open>{context}\<close>, \<open>{chat_history}\<close>, \<open>{question}\<close>.
\<close>

record prompt_inputs =
  pi_context :: string
  pi_chat_history :: string
  pi_question :: string

text \<open>
  The external collaborators, as parameters.
  \<^item> \<open>init_failure\<close>: the exception \<open>initialize_rag_system\<close> raises, if any, and whether
    it is raised after \<open>retriever\<close>, \<open>llm\<close> and \<open>prompt\<close> have been assigned (lines
    96-118), that is, by \<open>create_qa_chain_with_memory\<close> at line 121;
  \<^item> \<open>retriever_invoke\<close>: \<open>retriever.invoke(question)\<close>;
  \<^item> \<open>chain_stream\<close>: \<open>chain.stream({})\<close> on the rendered prompt: the fragments it
    yields, and the exception that ends the iteration early, if any;
  \<^item> \<open>qa_chain_run\<close>: what the conversational retrieval chain computes (retrieval and
    generation) from the content of its memory and the question: the answer and the
    source documents, or an exception.
\<close>

record env =
  init_failure :: "(error \<times> bool) option"
  retriever_invoke :: "string \<Rightarrow> error + document list"
  chain_stream :: "prompt_inputs \<Rightarrow> string list \<times> error option"
  qa_chain_run :: "message list \<Rightarrow> string \<Rightarrow> error + (string \<times> document list)"

text \<open>
  The globals of app.py. \<open>qa_chain\<close> is \<open>None\<close> until \<open>initialize_rag_system\<close> has
  run; \<open>create_qa_chain_with_memory\<close> gives the chain one \<open>ConversationBufferMemory\<close>,
  whose content is all the state the chain has. \<open>stream_ready\<close> says that
  \<open>retriever\<close>, \<open>llm\<close> and \<open>prompt\<close> are set. \<open>chat_history_store\<close> is the dict from
  session id to the list of messages.
\<close>

record app_state =
  qa_chain :: "message list option"
  stream_ready :: bool
  chat_history_store :: "string \<rightharpoonup> message list"

text \<open>The JSON body of a request: both keys may be absent.\<close>

record request =
  req_question :: "string option"
  req_session_id :: "string option"

text \<open>\<open>data.get('question', '')\<close> and \<open>data.get('session_id', 'default')\<close>.\<close>

definition get_question :: "request \<Rightarrow> string" where
  "get_question req = (case req_question req of None \<Rightarrow> [] | Some q \<Rightarrow> q)"

definition get_session_id :: "request \<Rightarrow> string" where
  "get_session_id req = (case req_session_id req of None \<Rightarrow> ''default'' | Some s \<Rightarrow> s)"

datatype event = SourcesEvent "source_info list" | TokenEvent string | EndEvent

text \<open>The four error messages the handlers return as \<open>{'status': 'error', ...}\<close>.\<close>

datatype error_message = InitFailed | EmptyQuestion | QueryError error | StreamError error

text \<open>
  What a handler gives the client: an error object, a success object, an event stream
  (the events sent, and the exception that cut the stream, if any), or an exception that
  leaves the handler.
\<close>

datatype response =
    JsonError error_message
  | JsonSuccess string "source_info list"
  | EventStream "event list" "error option"
  | Unhandled error

text \<open>
  \<open>initialize_rag_system\<close>, as far as the handlers see it. It raises, and then the globals
  assigned before the exception stay assigned: \<open>retriever\<close>, \<open>llm\<close> and \<open>prompt\<close> when the
  exception comes from line 121, none of the three together otherwise, and \<open>qa_chain\<close> is
  left as it was. Or it sets every global (a new chain, with an empty memory) and returns
  \<open>qa_chain is not None\<close>.
\<close>

definition initialize_rag_system :: "env \<Rightarrow> app_state \<Rightarrow> (error + bool) \<times> app_state" where
  "initialize_rag_system env st =
     (case init_failure env of
        Some (e, stream_globals_set) \<Rightarrow>
          (Inl e, if stream_globals_set then st\<lparr>stream_ready := True\<rparr> else st)
      | None \<Rightarrow>
          (let st' = st\<lparr>qa_chain := Some [], stream_ready := True\<rparr>
           in (Inr (qa_chain st' \<noteq> None), st')))"

text \<open>Lines 170-174 and 237-241: create the session if it is new, append the question.\<close>

definition add_user_question :: "(string \<rightharpoonup> message list) \<Rightarrow> string \<Rightarrow> string \<Rightarrow> (string \<rightharpoonup> message list)" where
  "add_user_question store sid q =
     (let store1 = (case store sid of None \<Rightarrow> store(sid \<mapsto> []) | Some _ \<Rightarrow> store)
      in case store1 sid of
           None \<Rightarrow> store1
         | Some h \<Rightarrow> store1(sid \<mapsto> h @ [\<lparr>role = User, content = q\<rparr>]))"

text \<open>Lines 185-186 and 288-289: \<open>if len(h) > 20: h = h[-20:]\<close>.\<close>

definition trim :: "message list \<Rightarrow> message list" where
  "trim h = (if length h > 20 then drop (length h - 20) h else h)"

text \<open>
  \<open>qa_chain.invoke({"question": question})\<close>: the chain reads its memory, computes, and on
  success saves the question and the answer to its memory. Nothing else is passed in.
  On \<open>None\<close> the attribute lookup raises.
\<close>

definition qa_chain_invoke ::
  "env \<Rightarrow> message list option \<Rightarrow> string \<Rightarrow> error + (string \<times> document list \<times> message list)" where
  "qa_chain_invoke env chain q =
     (case chain of
        None \<Rightarrow> Inl AttributeError
      | Some memory \<Rightarrow>
          (case qa_chain_run env memory q of
             Inl e \<Rightarrow> Inl e
           | Inr (answer, docs) \<Rightarrow>
               Inr (answer, docs,
                    memory @ [\<lparr>role = User, content = q\<rparr>, \<lparr>role = Assistant, content = answer\<rparr>])))"

text \<open>The \<open>except\<close> branch of \<open>query\<close> (lines 205-206).\<close>

definition pop_last :: "(string \<rightharpoonup> message list) \<Rightarrow> string \<Rightarrow> (string \<rightharpoonup> message list)" where
  "pop_last store sid =
     (case store sid of
        None \<Rightarrow> store
      | Some h \<Rightarrow> if h \<noteq> [] then store(sid \<mapsto> butlast h) else store)"

text \<open>The body of \<open>query\<close> from line 157 on, the system being initialised.\<close>

definition query_body :: "env \<Rightarrow> request \<Rightarrow> app_state \<Rightarrow> response \<times> app_state" where
  "query_body env req st =
     (let question = get_question req; session_id = get_session_id req
      in if question = [] then (JsonError EmptyQuestion, st)
         else
           (let store1 = add_user_question (chat_history_store st) session_id question
            in case qa_chain_invoke env (qa_chain st) question of
                 Inl e \<Rightarrow>
                   (JsonError (QueryError e), st\<lparr>chat_history_store := pop_last store1 session_id\<rparr>)
               | Inr (answer, source_docs, memory') \<Rightarrow>
                   (case store1 session_id of
                      None \<Rightarrow>
                        (JsonError (QueryError KeyError),
                         st\<lparr>qa_chain := Some memory', chat_history_store := pop_last store1 session_id\<rparr>)
                    | Some h \<Rightarrow>
                        (JsonSuccess answer (format_sources source_docs),
                         st\<lparr>qa_chain := Some memory',
                            chat_history_store :=
                              store1(session_id \<mapsto> trim (h @ [\<lparr>role = Assistant, content = answer\<rparr>]))\<rparr>))))"

text \<open>\<open>query\<close> (POST /api/query), lines 146-211.\<close>

definition query :: "env \<Rightarrow> request \<Rightarrow> app_state \<Rightarrow> response \<times> app_state" where
  "query env req st =
     (if qa_chain st = None then
        (case initialize_rag_system env st of
           (Inl e, st') \<Rightarrow> (Unhandled e, st')
         | (Inr ok, st') \<Rightarrow> if \<not> ok then (JsonError InitFailed, st') else query_body env req st')
      else query_body env req st)"

text \<open>
  Lines 248-254: the history is read two entries at a time; an entry without a partner is
  left out.
\<close>

fun render_history :: "message list \<Rightarrow> string" where
  "render_history (u # a # rest) =
     user_label @ content u @ newline @ assistant_label @ content a @ newline @ newline
       @ render_history rest"
| "render_history _ = []"

text \<open>What the generator closes over: \<open>docs\<close>, the prompt's inputs and the session id.\<close>

record pending_stream =
  ps_docs :: "document list"
  ps_inputs :: prompt_inputs
  ps_session_id :: string

text \<open>
  The generator \<open>generate\<close> (lines 257-292), run to its end or to the exception that leaves
  it. It runs after the handler has returned, outside the handler's \<open>try\<close>.
\<close>

definition generate :: "env \<Rightarrow> pending_stream \<Rightarrow> app_state \<Rightarrow> (event list \<times> error option) \<times> app_state" where
  "generate env p st =
     (let sources = format_sources (ps_docs p);
          (chunks, failure) = chain_stream env (ps_inputs p);
          emitted = SourcesEvent sources # map TokenEvent chunks;
          answer = concat chunks
      in case failure of
           Some e \<Rightarrow> ((emitted, Some e), st)
         | None \<Rightarrow>
             (case chat_history_store st (ps_session_id p) of
                None \<Rightarrow> ((emitted, Some KeyError), st)
              | Some h \<Rightarrow>
                  ((emitted @ [EndEvent], None),
                   st\<lparr>chat_history_store :=
                        (chat_history_store st)(ps_session_id p \<mapsto>
                           trim (h @ [\<lparr>role = Assistant, content = answer\<rparr>]))\<rparr>)))"

text \<open>
  The handler \<open>stream_query\<close> from line 225 to its \<open>return\<close>: an error object, or the
  response that wraps the generator, not yet run.
\<close>

definition stream_query_body :: "env \<Rightarrow> request \<Rightarrow> app_state \<Rightarrow> (response + pending_stream) \<times> app_state" where
  "stream_query_body env req st =
     (let question = get_question req; session_id = get_session_id req
      in if question = [] then (Inl (JsonError EmptyQuestion), st)
         else
           (let store1 = add_user_question (chat_history_store st) session_id question;
                st1 = st\<lparr>chat_history_store := store1\<rparr>
            in case retriever_invoke env question of
                 Inl e \<Rightarrow>
                   (Inl (JsonError (StreamError e)),
                    st\<lparr>chat_history_store :=
                         (case store1 session_id of
                            None \<Rightarrow> store1
                          | Some h \<Rightarrow> if h \<noteq> [] then store1(session_id \<mapsto> butlast h) else store1)\<rparr>)
               | Inr docs \<Rightarrow>
                   (case store1 session_id of
                      None \<Rightarrow> (Inl (JsonError (StreamError KeyError)), st1)
                    | Some h \<Rightarrow>
                        (Inr \<lparr>ps_docs = docs,
                              ps_inputs =
                                \<lparr>pi_context = join (newline @ newline) (map page_content docs),
                                 pi_chat_history = render_history (butlast h),
                                 pi_question = question\<rparr>,
                              ps_session_id = session_id\<rparr>,
                         st1))))"

definition stream_query_handler :: "env \<Rightarrow> request \<Rightarrow> app_state \<Rightarrow> (response + pending_stream) \<times> app_state" where
  "stream_query_handler env req st =
     (if \<not> stream_ready st then
        (case initialize_rag_system env st of
           (Inl e, st') \<Rightarrow> (Inl (Unhandled e), st')
         | (Inr ok, st') \<Rightarrow>
             if \<not> ok then (Inl (JsonError InitFailed), st') else stream_query_body env req st')
      else stream_query_body env req st)"

text \<open>
  \<open>stream_query\<close> (POST /api/stream) as the client sees it: the handler, then the
  generator consumed to its end.
\<close>

definition stream_query :: "env \<Rightarrow> request \<Rightarrow> app_state \<Rightarrow> response \<times> app_state" where
  "stream_query env req st =
     (case stream_query_handler env req st of
        (Inl r, st1) \<Rightarrow> (r, st1)
      | (Inr p, st1) \<Rightarrow>
          (case generate env p st1 of
             ((events, failure), st2) \<Rightarrow> (EventStream events failure, st2)))"

text \<open>\<open>get_history\<close> (GET) and \<open>clear_history\<close> (DELETE) of /api/history/<session_id>.\<close>

definition get_history :: "app_state \<Rightarrow> string \<Rightarrow> message list" where
  "get_history st session_id =
     (case chat_history_store st session_id of None \<Rightarrow> [] | Some h \<Rightarrow> h)"

definition clear_history :: "app_state \<Rightarrow> string \<Rightarrow> app_state" where
  "clear_history st session_id =
     st\<lparr>chat_history_store := (chat_history_store st)(session_id \<mapsto> [])\<rparr>"

section \<open>The content fingerprint tracker (file_tracking.py)\<close>

text \<open>
  One entry of the manifest's \<open>"files"\<close> dict: the keys \<open>size\<close>, \<open>modified_time\<close>,
  \<open>hash\<close> and \<open>last_processed\<close>. Times are points of an abstract clock.
\<close>

record tracked_file =
  file_size :: nat
  modified_time :: nat
  hash :: string
  last_processed :: nat

text \<open>The manifest: \<open>{"files": {...}, "last_update": ...}\<close>, keyed by relative path.\<close>

record tracking_data =
  files :: "string \<rightharpoonup> tracked_file"
  last_update :: nat

text \<open>
  A file of the watched directory: what \<open>os.stat\<close> reports, and its bytes; \<open>None\<close> when
  \<open>open\<close> fails on it.
\<close>

record fs_file =
  st_size :: nat
  st_mtime :: nat
  data :: "string option"

text \<open>
  What the tracker reads and writes.
  \<^item> \<open>glob_ext\<close>: for an extension, the files that \<open>glob\<close> finds under the watched
    directory, in its order. A file is named by its path relative to the watched
    directory: \<open>glob\<close> yields the directory joined with that path, and \<open>os.path.relpath\<close>
    gives the relative path back.
  \<^item> \<open>file_at\<close>: the files, by relative path.
  \<^item> \<open>md5\<close>: the digest function of \<open>hashlib\<close>.
  \<^item> \<open>tracking_file\<close>: the JSON manifest on disk; \<open>None\<close> when the file is missing or does
    not parse.
  \<^item> \<open>clock\<close>: the value of the next \<open>datetime.now()\<close>; every reading advances it.
\<close>

record world =
  glob_ext :: "string \<Rightarrow> string list"
  file_at :: "string \<rightharpoonup> fs_file"
  md5 :: "string \<Rightarrow> string"
  tracking_file :: "tracking_data option"
  clock :: nat

definition supported_extensions :: "string list" where
  "supported_extensions = [''.pdf'', ''.txt'', ''.csv'', ''.xlsx'', ''.xls'', ''.md'', ''.markdown'']"

text \<open>\<open>os.path.join(knowledge_dir, rel)\<close>, for a directory name that does not end in a slash.\<close>

definition path_join :: "string \<Rightarrow> string \<Rightarrow> string" where
  "path_join dir rel = dir @ ''/'' @ rel"

text \<open>\<open>calculate_file_hash\<close>: \<open>open\<close> raises on a missing or unreadable file.\<close>

definition calculate_file_hash :: "world \<Rightarrow> string \<Rightarrow> error + string" where
  "calculate_file_hash w p =
     (case file_at w p of
        None \<Rightarrow> Inl OSError
      | Some f \<Rightarrow> (case data f of None \<Rightarrow> Inl OSError | Some bytes \<Rightarrow> Inr (md5 w bytes)))"

text \<open>\<open>get_file_metadata\<close>: \<open>os.stat\<close>, then the hash, then the time.\<close>

definition get_file_metadata :: "world \<Rightarrow> string \<Rightarrow> error + (tracked_file \<times> world)" where
  "get_file_metadata w p =
     (case file_at w p of
        None \<Rightarrow> Inl OSError
      | Some f \<Rightarrow>
          (case calculate_file_hash w p of
             Inl e \<Rightarrow> Inl e
           | Inr h \<Rightarrow>
               Inr (\<lparr>file_size = st_size f, modified_time = st_mtime f, hash = h,
                     last_processed = clock w\<rparr>,
                    w\<lparr>clock := clock w + 1\<rparr>)))"

text \<open>\<open>load_file_tracking\<close>: the manifest on disk, or a new, empty one.\<close>

definition load_file_tracking :: "world \<Rightarrow> tracking_data \<times> world" where
  "load_file_tracking w =
     (case tracking_file w of
        Some td \<Rightarrow> (td, w)
      | None \<Rightarrow> (\<lparr>files = Map.empty, last_update = clock w\<rparr>, w\<lparr>clock := clock w + 1\<rparr>))"

text \<open>
  \<open>save_file_tracking\<close>: stamp the manifest and write it. The directory of the manifest
  exists (app.py creates it when the module is loaded), so the write goes through.
\<close>

definition save_file_tracking :: "tracking_data \<Rightarrow> world \<Rightarrow> world" where
  "save_file_tracking td w =
     w\<lparr>tracking_file := Some (td\<lparr>last_update := clock w\<rparr>), clock := clock w + 1\<rparr>"

text \<open>
  The loop of \<open>check_files_changed\<close> over \<open>current_files\<close> (lines 65-81), with the dict
  \<open>tracked_files\<close> and the list \<open>new_or_changed_files\<close> as accumulators. An exception
  leaves the loop and the function.
\<close>

fun scan_files ::
  "string \<Rightarrow> string list \<Rightarrow> (string \<rightharpoonup> tracked_file) \<Rightarrow> string list \<Rightarrow> world
     \<Rightarrow> error + ((string \<rightharpoonup> tracked_file) \<times> string list \<times> world)" where
  "scan_files dir [] tracked_files new_or_changed_files w = Inr (tracked_files, new_or_changed_files, w)"
| "scan_files dir (rel_path # rest) tracked_files new_or_changed_files w =
     (case tracked_files rel_path of
        None \<Rightarrow>
          (case get_file_metadata w rel_path of
             Inl e \<Rightarrow> Inl e
           | Inr (meta, w') \<Rightarrow>
               scan_files dir rest (tracked_files(rel_path \<mapsto> meta))
                 (new_or_changed_files @ [path_join dir rel_path]) w')
      | Some entry \<Rightarrow>
          (case calculate_file_hash w rel_path of
             Inl e \<Rightarrow> Inl e
           | Inr current_hash \<Rightarrow>
               if current_hash \<noteq> hash entry then
                 (case get_file_metadata w rel_path of
                    Inl e \<Rightarrow> Inl e
                  | Inr (meta, w') \<Rightarrow>
                      scan_files dir rest (tracked_files(rel_path \<mapsto> meta))
                        (new_or_changed_files @ [path_join dir rel_path]) w')
               else scan_files dir rest tracked_files new_or_changed_files w))"

text \<open>Lines 59-61: one \<open>glob\<close> per supported extension.\<close>

definition current_files :: "world \<Rightarrow> string list" where
  "current_files w = concat (map (glob_ext w) supported_extensions)"

text \<open>
  \<open>check_files_changed\<close>: the changed files and the world with the manifest rewritten, or
  the exception that left the function; then nothing has been written.
\<close>

definition check_files_changed :: "world \<Rightarrow> string \<Rightarrow> (error + string list) \<times> world" where
  "check_files_changed w knowledge_dir =
     (case load_file_tracking w of
        (td, w1) \<Rightarrow>
          (case scan_files knowledge_dir (current_files w1) (files td) [] w1 of
             Inl e \<Rightarrow> (Inl e, w1)
           | Inr (tracked_files, new_or_changed_files, w2) \<Rightarrow>
               (Inr new_or_changed_files,
                save_file_tracking (td\<lparr>files := tracked_files |` set (current_files w1)\<rparr>) w2)))"

section \<open>Document loading (file_loaders.py)\<close>

datatype loader =
  PyPDFLoader | TextLoader | CSVLoader | UnstructuredExcelLoader | UnstructuredMarkdownLoader

text \<open>\<open>os.path.basename\<close>: what follows the last slash.\<close>

definition basename :: "string \<Rightarrow> string" where
  "basename p = rev (takeWhile (\<lambda>c. c \<noteq> CHR ''/'') (rev p))"

text \<open>
  \<open>os.path.splitext(p)[1]\<close>: from the last dot of the base name on, the leading dots of
  the base name not counted; empty when there is no such dot.
\<close>

definition splitext_ext :: "string \<Rightarrow> string" where
  "splitext_ext p =
     (let stem = dropWhile (\<lambda>c. c = CHR ''.'') (basename p)
      in if CHR ''.'' \<in> set stem
         then CHR ''.'' # rev (takeWhile (\<lambda>c. c \<noteq> CHR ''.'') (rev stem))
         else [])"

text \<open>\<open>str.lower\<close> on the ASCII letters.\<close>

definition lower_char :: "char \<Rightarrow> char" where
  "lower_char c =
     (case map_of (zip ''ABCDEFGHIJKLMNOPQRSTUVWXYZ'' ''abcdefghijklmnopqrstuvwxyz'') c of
        None \<Rightarrow> c
      | Some l \<Rightarrow> l)"

definition lower :: "string \<Rightarrow> string" where
  "lower s = map lower_char s"

text \<open>\<open>get_file_loader\<close>: the loader for the extension, \<open>None\<close> for any other file.\<close>

definition get_file_loader :: "string \<Rightarrow> loader option" where
  "get_file_loader path =
     (let file_extension = lower (splitext_ext path)
      in if file_extension = ''.pdf'' then Some PyPDFLoader
         else if file_extension = ''.txt'' then Some TextLoader
         else if file_extension = ''.csv'' then Some CSVLoader
         else if file_extension \<in> set [''.xlsx'', ''.xls''] then Some UnstructuredExcelLoader
         else if file_extension \<in> set [''.md'', ''.markdown''] then Some UnstructuredMarkdownLoader
         else None)"

text \<open>
  The body of the loop of \<open>load_specific_documents\<close> for one file, \<open>try\<close> and \<open>except\<close>
  included: the documents the file adds. \<open>load\<close> is the extraction capability: building
  the loader and calling its \<open>load()\<close>, which may raise.
\<close>

definition load_one ::
  "(loader \<Rightarrow> string \<Rightarrow> error + document list) \<Rightarrow> string \<Rightarrow> document list" where
  "load_one load path =
     (case get_file_loader path of
        None \<Rightarrow> []
      | Some l \<Rightarrow>
          (case load l path of
             Inl e \<Rightarrow> []
           | Inr file_docs \<Rightarrow>
               map (\<lambda>doc. doc\<lparr>source_file := Some (basename path),
                                file_path := Some path\<rparr>) file_docs))"

text \<open>\<open>load_specific_documents\<close>: \<open>documents.extend\<close> for each file in turn.\<close>

fun load_specific_documents ::
  "(loader \<Rightarrow> string \<Rightarrow> error + document list) \<Rightarrow> string list \<Rightarrow> document list" where
  "load_specific_documents load [] = []"
| "load_specific_documents load (path # rest) =
     load_one load path @ load_specific_documents load rest"

section \<open>The knowledge index (vector_store.py)\<close>

text \<open>An embedding: the numbers are opaque here.\<close>

type_synonym vector = "int list"

text \<open>One stored vector: its id, the embedding, and the chunk it was computed from.\<close>

record indexed_vector =
  iv_id :: nat
  iv_vector :: vector
  iv_payload :: document

text \<open>
  The index directory: missing, or a directory with the names of the entries that are not
  the index's own (the tracking manifest lives there too) and the collection the index
  has persisted in it, if any.
\<close>

datatype vs_dir = Missing | Dir "string list" "indexed_vector list option"

text \<open>\<open>os.path.exists(vector_store_dir) and os.listdir(vector_store_dir)\<close>.\<close>

definition exists_nonempty :: "vs_dir \<Rightarrow> bool" where
  "exists_nonempty d =
     (case d of Missing \<Rightarrow> False | Dir others chroma \<Rightarrow> others \<noteq> [] \<or> chroma \<noteq> None)"

text \<open>The vectors persisted in the directory.\<close>

definition stored :: "vs_dir \<Rightarrow> indexed_vector list" where
  "stored d = (case d of Dir _ (Some c) \<Rightarrow> c | _ \<Rightarrow> [])"

text \<open>
  Modelled from the spec: the vector index (the Chroma library, not part of the
  repository), a black box with \<open>upsert(id, vector, payload)\<close> that persists in a
  directory. Opening the index on a directory creates the directory and an empty collection
  where there is none, and keeps what is there.
\<close>

definition chroma_open :: "vs_dir \<Rightarrow> vs_dir" where
  "chroma_open d =
     (case d of
        Missing \<Rightarrow> Dir [] (Some [])
      | Dir others None \<Rightarrow> Dir others (Some [])
      | Dir others (Some c) \<Rightarrow> Dir others (Some c))"

text \<open>
  Modelled from the spec: \<open>upsert(id, vector, payload)\<close> replaces the entry that has the id,
  and appends the entry when no entry has it.
\<close>

fun upsert :: "indexed_vector \<Rightarrow> indexed_vector list \<Rightarrow> indexed_vector list" where
  "upsert e [] = [e]"
| "upsert e (x # xs) = (if iv_id x = iv_id e then e # xs else x # upsert e xs)"

text \<open>
  Modelled from the spec: the embedding service applied to each text in turn; the first
  failure is the failure of the whole call.
\<close>

fun embed_documents :: "(string \<Rightarrow> error + vector) \<Rightarrow> string list \<Rightarrow> error + vector list" where
  "embed_documents embed_text [] = Inr []"
| "embed_documents embed_text (t # ts) =
     (case embed_text t of
        Inl e \<Rightarrow> Inl e
      | Inr v \<Rightarrow> (case embed_documents embed_text ts of Inl e \<Rightarrow> Inl e | Inr vs \<Rightarrow> Inr (v # vs)))"

text \<open>
  Modelled from the spec: the ids the index gives to documents added without ids are new
  (the library draws random UUIDs); here, the numbers from the first one above every id in
  the collection.
\<close>

definition next_id :: "indexed_vector list \<Rightarrow> nat" where
  "next_id c = foldr (\<lambda>x m. max (Suc (iv_id x)) m) c 0"

fun new_entries :: "nat \<Rightarrow> document list \<Rightarrow> vector list \<Rightarrow> indexed_vector list" where
  "new_entries n (d # ds) (v # vs) =
     \<lparr>iv_id = n, iv_vector = v, iv_payload = d\<rparr> # new_entries (Suc n) ds vs"
| "new_entries n _ _ = []"

text \<open>
  Modelled from the spec: \<open>add_documents\<close> embeds the text of every chunk and then upserts
  one entry per chunk; when the embedding fails nothing is added.
\<close>

definition add_documents ::
  "(string \<Rightarrow> error + vector) \<Rightarrow> document list \<Rightarrow> indexed_vector list \<Rightarrow> error + indexed_vector list" where
  "add_documents embed_text docs c =
     (case embed_documents embed_text (map page_content docs) of
        Inl e \<Rightarrow> Inl e
      | Inr vs \<Rightarrow> Inr (foldl (\<lambda>c' e. upsert e c') c (new_entries (next_id c) docs vs)))"

text \<open>
  \<open>vector_store.add_documents(docs)\<close> on the index opened on a directory: the directory
  afterwards, and the exception if one is raised.
\<close>

definition add_to_dir ::
  "(string \<Rightarrow> error + vector) \<Rightarrow> document list \<Rightarrow> vs_dir \<Rightarrow> error option \<times> vs_dir" where
  "add_to_dir embed_text docs d =
     (case d of
        Dir others (Some c) \<Rightarrow>
          (case add_documents embed_text docs c of
             Inl e \<Rightarrow> (Some e, d)
           | Inr c' \<Rightarrow> (None, Dir others (Some c')))
      | _ \<Rightarrow> (Some AttributeError, d))"

text \<open>
  \<open>initialize_or_load_vector_store\<close>. \<open>docs\<close> is \<open>None\<close> when the argument is left out;
  \<open>if docs\<close> holds for a list that is not empty. The result is the exception, or the
  vectors of the store that is returned; with it, the directory afterwards.
  \<open>Chroma.from_documents\<close> opens the index on the directory and adds the documents.
\<close>

definition initialize_or_load_vector_store ::
  "(string \<Rightarrow> error + vector) \<Rightarrow> document list option \<Rightarrow> vs_dir
     \<Rightarrow> (error + indexed_vector list) \<times> vs_dir" where
  "initialize_or_load_vector_store embed_text docs vector_store_dir =
     (if exists_nonempty vector_store_dir then
        (let d1 = chroma_open vector_store_dir
         in case docs of
              Some (x # xs) \<Rightarrow>
                (case add_to_dir embed_text (x # xs) d1 of
                   (Some e, d2) \<Rightarrow> (Inl e, d2)
                 | (None, d2) \<Rightarrow> (Inr (stored d2), d2))
            | _ \<Rightarrow> (Inr (stored d1), d1))
      else
        (case docs of
           Some (x # xs) \<Rightarrow>
             (case add_to_dir embed_text (x # xs) (chroma_open vector_store_dir) of
                (Some e, d2) \<Rightarrow> (Inl e, d2)
              | (None, d2) \<Rightarrow> (Inr (stored d2), d2))
         | _ \<Rightarrow> (Inl ValueError, vector_store_dir)))"

section \<open>Vocabulary of the statements about the answer pipelines\<close>

text \<open>
  Predicates on responses, sequences of calls, and the stubbed services and states at which
  the theorems below are evaluated.
\<close>

text \<open>An error object or an exception: neither an answer nor an event stream.\<close>

definition is_error_response :: "response \<Rightarrow> bool" where
  "is_error_response r = (case r of JsonError _ \<Rightarrow> True | Unhandled _ \<Rightarrow> True | _ \<Rightarrow> False)"

text \<open>The \<open>token\<close> value of a token event; other events carry none.\<close>

fun token_of :: "event \<Rightarrow> string" where
  "token_of (TokenEvent t) = t"
| "token_of _ = []"

text \<open>
  A stubbed retriever (one document), a stubbed streaming generation (three fragments), and
  a stubbed buffered chain whose answer repeats what its memory holds.
\<close>

definition stub_doc :: document where
  "stub_doc = \<lparr>page_content = ''Paris is the capital of France.'', source_file = Some ''notes.txt'',
      file_path = Some ''./knowledge_base/notes.txt'', page = None\<rparr>"

definition stub_env :: env where
  "stub_env = \<lparr>init_failure = None,
     retriever_invoke = (\<lambda>q. Inr [stub_doc]),
     chain_stream = (\<lambda>i. ([''Paris'', '' is'', '' the capital.''], None)),
     qa_chain_run = (\<lambda>memory q. Inr (concat (map content memory), [stub_doc]))\<rparr>"

text \<open>The same services, the generation failing after its first fragment.\<close>

definition failing_env :: env where
  "failing_env = stub_env\<lparr>chain_stream := (\<lambda>i. ([''Paris''], Some (Exception ''connection lost'')))\<rparr>"

text \<open>The state of a process that has just started.\<close>

definition fresh_state :: app_state where
  "fresh_state = \<lparr>qa_chain = None, stream_ready = False, chat_history_store = Map.empty\<rparr>"

definition ask :: "string \<Rightarrow> string \<Rightarrow> request" where
  "ask q sid = \<lparr>req_question = Some q, req_session_id = Some sid\<rparr>"

text \<open>A call of one of the two pipelines, and a sequence of calls that all succeed.\<close>

datatype call = Query request | StreamQuery request

fun call_request :: "call \<Rightarrow> request" where
  "call_request (Query req) = req"
| "call_request (StreamQuery req) = req"

fun run_call :: "env \<Rightarrow> call \<Rightarrow> app_state \<Rightarrow> response \<times> app_state" where
  "run_call env (Query req) st = query env req st"
| "run_call env (StreamQuery req) st = stream_query env req st"

text \<open>A success object, or an event stream that ran to its end.\<close>

definition is_success :: "response \<Rightarrow> bool" where
  "is_success r = (case r of JsonSuccess _ _ \<Rightarrow> True | EventStream _ None \<Rightarrow> True | _ \<Rightarrow> False)"

fun round_trips :: "env \<Rightarrow> call list \<Rightarrow> app_state \<Rightarrow> app_state option" where
  "round_trips env [] st = Some st"
| "round_trips env (c # cs) st =
     (case run_call env c st of (r, st') \<Rightarrow> if is_success r then round_trips env cs st' else None)"

text \<open>
  The answer a successful call returns: the \<open>answer\<close> of the success object, or the
  concatenation of the streamed tokens.
\<close>

definition answer_of :: "response \<Rightarrow> string" where
  "answer_of r =
     (case r of
        JsonSuccess answer _ \<Rightarrow> answer
      | EventStream events _ \<Rightarrow> concat (map token_of events)
      | _ \<Rightarrow> [])"

text \<open>A session that holds ten question/answer pairs: twenty messages.\<close>

definition full_history :: "message list" where
  "full_history = concat (replicate 10 [\<lparr>role = User, content = ''q''\<rparr>, \<lparr>role = Assistant, content = ''a''\<rparr>])"

definition full_state :: app_state where
  "full_state = \<lparr>qa_chain = Some [], stream_ready = True, chat_history_store = [''s1'' \<mapsto> full_history]\<rparr>"

text \<open>
  The same session with one more question that never got its answer, as a streaming query
  whose generation failed leaves it: twenty-one messages.
\<close>

definition overfull_state :: app_state where
  "overfull_state =
     \<lparr>qa_chain = Some [], stream_ready = True,
      chat_history_store = [''s1'' \<mapsto> full_history @ [\<lparr>role = User, content = ''q1''\<rparr>]]\<rparr>"

section \<open>Vocabulary of the statements about the tracker and the loaders\<close>

text \<open>
  The test of the loop for one file: it has no entry, or the hash of its content is not the
  hash of its entry.
\<close>

definition file_changed :: "world \<Rightarrow> (string \<rightharpoonup> tracked_file) \<Rightarrow> string \<Rightarrow> bool" where
  "file_changed w tracked r =
     (case tracked r of None \<Rightarrow> True | Some e \<Rightarrow> calculate_file_hash w r \<noteq> Inr (hash e))"

text \<open>Two worlds with the same files: only the manifest and the clock may differ.\<close>

definition same_fs :: "world \<Rightarrow> world \<Rightarrow> bool" where
  "same_fs w w' = (glob_ext w' = glob_ext w \<and> file_at w' = file_at w \<and> md5 w' = md5 w)"

text \<open>The entries \<open>load_file_tracking\<close> finds.\<close>

definition loaded_files :: "world \<Rightarrow> (string \<rightharpoonup> tracked_file)" where
  "loaded_files w = (case tracking_file w of None \<Rightarrow> Map.empty | Some td \<Rightarrow> files td)"

text \<open>
  A watched directory with the one file \<open>notes.txt\<close> and no manifest yet. The stubbed
  digest of a content is the content itself.
\<close>

definition stub_world :: world where
  "stub_world = \<lparr>glob_ext = (\<lambda>ext. if ext = ''.txt'' then [''notes.txt''] else []),
     file_at = [''notes.txt'' \<mapsto> \<lparr>st_size = 3, st_mtime = 100, data = Some ''abc''\<rparr>],
     md5 = (\<lambda>bytes. bytes),
     tracking_file = None,
     clock = 0\<rparr>"

text \<open>
  The same directory with a manifest written when \<open>notes.txt\<close> held \<open>abd\<close>: the file now
  holds \<open>abc\<close>, with the size and the modification time the manifest has.
\<close>

definition stale_world :: world where
  "stale_world = stub_world\<lparr>tracking_file :=
     Some \<lparr>files = [''notes.txt'' \<mapsto> \<lparr>file_size = 3, modified_time = 100, hash = ''abd'', last_processed = 1\<rparr>],
           last_update = 2\<rparr>, clock := 5\<rparr>"

text \<open>The same directory with a second file, listed first, that cannot be read.\<close>

definition unreadable_world :: world where
  "unreadable_world = stub_world\<lparr>glob_ext := (\<lambda>ext. if ext = ''.txt'' then [''bad.txt'', ''notes.txt''] else []),
     file_at := [''notes.txt'' \<mapsto> \<lparr>st_size = 3, st_mtime = 100, data = Some ''abc''\<rparr>,
                 ''bad.txt'' \<mapsto> \<lparr>st_size = 7, st_mtime = 100, data = None\<rparr>]\<rparr>"

text \<open>An extraction that fails on \<open>notes.txt\<close> and yields one document for any other file.\<close>

definition failing_load :: "loader \<Rightarrow> string \<Rightarrow> error + document list" where
  "failing_load l path =
     (if path = ''kb/notes.txt'' then Inl (Exception ''cannot decode'')
      else Inr [\<lparr>page_content = path, source_file = None, file_path = None, page = None\<rparr>])"

section \<open>Vocabulary of the statements about the knowledge index\<close>

text \<open>
  A stubbed embedding service: it fails on the empty text, and the vector of any other text
  is its length.
\<close>

definition stub_embed :: "string \<Rightarrow> error + vector" where
  "stub_embed t = (if t = [] then Inl (Exception ''empty text'') else Inr [int (length t)])"

text \<open>A chunk of \<open>notes.txt\<close> with the given text.\<close>

definition chunk :: "string \<Rightarrow> document" where
  "chunk t = \<lparr>page_content = t, source_file = Some ''notes.txt'', file_path = Some ''kb/notes.txt'', page = None\<rparr>"

text \<open>A persisted collection of two vectors.\<close>

definition old_index :: "indexed_vector list" where
  "old_index = [\<lparr>iv_id = 4, iv_vector = [5], iv_payload = chunk ''Paris''\<rparr>,
                \<lparr>iv_id = 0, iv_vector = [2], iv_payload = chunk ''is''\<rparr>]"

section \<open>Properties of the session store and the answer pipelines\<close>

subsection \<open>The sliding window\<close>

lemma last_trim_snoc: "last (trim (h @ [m])) = m"
  by (simp add: trim_def)

lemma trim_snoc_nonempty: "trim (h @ [m]) \<noteq> []"
  by (simp add: trim_def)

lemma length_trim: "length (trim h) \<le> 20"
  by (simp add: trim_def)

subsection \<open>An empty question\<close>

lemma query_body_empty: "get_question req = [] \<Longrightarrow> query_body env req st = (JsonError EmptyQuestion, st)"
  by (simp add: query_body_def)

lemma stream_query_body_empty: "get_question req = [] \<Longrightarrow> stream_query_body env req st = (Inl (JsonError EmptyQuestion), st)"
  by (simp add: stream_query_body_def)

lemma init_store: "initialize_rag_system env st = (x, st') \<Longrightarrow> chat_history_store st' = chat_history_store st"
  by (auto simp: initialize_rag_system_def Let_def split: option.splits if_splits)

text \<open>
  Claim C10. A \<open>query\<close> or \<open>stream_query\<close> call whose question is the empty string (or
  absent) returns an error: the empty-question error object, or the exception of an
  initialisation that this call had to run. No event stream is started (the handler returns
  a response, not a generator), and the session store is left as it was: no session is
  created and no message is appended.
\<close>

theorem empty_question_rejected:
  assumes "get_question req = []"
  shows "is_error_response (fst (query env req st))
       \<and> chat_history_store (snd (query env req st)) = chat_history_store st
       \<and> isl (fst (stream_query_handler env req st))
       \<and> is_error_response (fst (stream_query env req st))
       \<and> chat_history_store (snd (stream_query env req st)) = chat_history_store st"
  using assms
  by (auto simp: query_def stream_query_def stream_query_handler_def query_body_empty stream_query_body_empty
      is_error_response_def dest: init_store split: sum.splits prod.splits)

text \<open>An empty question sent to a process that has just started, for both pipelines.\<close>

theorem empty_question_rejected_witness:
  "get_question (ask [] ''s1'') = []
   \<and> fst (query stub_env (ask [] ''s1'') fresh_state) = JsonError EmptyQuestion
   \<and> chat_history_store (snd (query stub_env (ask [] ''s1'') fresh_state)) ''s1'' = None
   \<and> fst (stream_query stub_env (ask [] ''s1'') fresh_state) = JsonError EmptyQuestion
   \<and> chat_history_store (snd (stream_query stub_env (ask [] ''s1'') fresh_state)) ''s1'' = None"
  using empty_question_rejected [of "ask [] ''s1''" stub_env fresh_state]
  by (simp add: ask_def get_question_def fresh_state_def query_def stream_query_def stream_query_handler_def
       query_body_def stream_query_body_def stub_env_def initialize_rag_system_def)

subsection \<open>The streaming protocol\<close>

lemma generate_success:
  assumes "generate env p st = ((events, None), st')"
  shows "\<exists>chunks h0. chain_stream env (ps_inputs p) = (chunks, None)
       \<and> events = SourcesEvent (format_sources (ps_docs p)) # map TokenEvent chunks @ [EndEvent]
       \<and> chat_history_store st (ps_session_id p) = Some h0
       \<and> chat_history_store st' (ps_session_id p) = Some (trim (h0 @ [\<lparr>role = Assistant, content = concat chunks\<rparr>]))"
  using assms
  by (auto simp: generate_def Let_def split: prod.splits option.splits)

lemma stream_query_body_pending:
  assumes "stream_query_body env req st = (Inr p, st1)"
  shows "\<exists>docs. retriever_invoke env (get_question req) = Inr docs \<and> ps_docs p = docs
        \<and> ps_session_id p = get_session_id req \<and> pi_question (ps_inputs p) = get_question req
        \<and> get_question req \<noteq> []"
  using assms
  by (auto simp: stream_query_body_def Let_def split: if_splits sum.splits option.splits)

lemma stream_query_handler_pending:
  assumes "stream_query_handler env req st = (Inr p, st1)"
  shows "\<exists>st0. stream_query_body env req st0 = (Inr p, st1)"
  using assms
  by (auto simp: stream_query_handler_def split: if_splits sum.splits prod.splits)

lemma stream_query_handler_error:
  assumes "stream_query_handler env req st = (Inl r, st1)"
  shows "is_error_response r"
  using assms
  by (auto simp: stream_query_handler_def stream_query_body_def Let_def is_error_response_def
      split: if_splits sum.splits prod.splits option.splits)

lemma concat_tokens: "concat (map token_of (SourcesEvent s # map TokenEvent chunks @ [EndEvent])) = concat chunks"
  by (induction chunks) auto

text \<open>
  Claim C4. A streaming query that succeeds emits exactly one sources event first, then one
  token event per fragment of the generation service, in the order the service produced
  them, then exactly one end event last; and the concatenation of the token values is the
  content of the assistant message that ends the session's history at completion.
\<close>

theorem stream_success_protocol:
  assumes "stream_query env req st = (EventStream events None, st')"
  shows "\<exists>docs inputs chunks h.
       retriever_invoke env (get_question req) = Inr docs
     \<and> pi_question inputs = get_question req
     \<and> chain_stream env inputs = (chunks, None)
     \<and> events = SourcesEvent (format_sources docs) # map TokenEvent chunks @ [EndEvent]
     \<and> chat_history_store st' (get_session_id req) = Some h
     \<and> h \<noteq> []
     \<and> last h = \<lparr>role = Assistant, content = concat (map token_of events)\<rparr>"
proof -
  from assms obtain p st1 where h: "stream_query_handler env req st = (Inr p, st1)"
    and g: "generate env p st1 = ((events, None), st')"
    by (auto simp: stream_query_def is_error_response_def split: prod.splits sum.splits
        dest: stream_query_handler_error)
  from h obtain st0 where b: "stream_query_body env req st0 = (Inr p, st1)"
    using stream_query_handler_pending by blast
  from stream_query_body_pending [OF b] obtain docs where
    d: "retriever_invoke env (get_question req) = Inr docs" "ps_docs p = docs"
       "ps_session_id p = get_session_id req" "pi_question (ps_inputs p) = get_question req"
    by blast
  from generate_success [OF g] obtain chunks h0 where
    c: "chain_stream env (ps_inputs p) = (chunks, None)"
       "events = SourcesEvent (format_sources (ps_docs p)) # map TokenEvent chunks @ [EndEvent]"
       "chat_history_store st' (ps_session_id p) = Some (trim (h0 @ [\<lparr>role = Assistant, content = concat chunks\<rparr>]))"
    by blast
  have t: "concat (map token_of events) = concat chunks"
    using c(2) concat_tokens by simp
  show ?thesis
    using d c t by (metis last_trim_snoc trim_snoc_nonempty)
qed

text \<open>The stubbed generation of three fragments, on a process that has just started.\<close>

theorem stream_success_protocol_witness:
  "stream_query stub_env (ask ''What is the capital of France?'' ''s1'') fresh_state =
     (EventStream [SourcesEvent [\<lparr>file_name = ''notes.txt'', page_no = None\<rparr>],
                   TokenEvent ''Paris'', TokenEvent '' is'', TokenEvent '' the capital.'', EndEvent] None,
      \<lparr>qa_chain = Some [], stream_ready = True,
       chat_history_store = [''s1'' \<mapsto> [\<lparr>role = User, content = ''What is the capital of France?''\<rparr>,
                                          \<lparr>role = Assistant, content = ''Paris is the capital.''\<rparr>]]\<rparr>)"
  using stream_success_protocol [of stub_env "ask ''What is the capital of France?'' ''s1''" fresh_state]
  by (simp add: stream_query_def stream_query_handler_def stream_query_body_def generate_def
      initialize_rag_system_def fresh_state_def stub_env_def ask_def get_question_def get_session_id_def
      add_user_question_def trim_def format_sources_def stub_doc_def Let_def)

subsection \<open>The cap on a session's length\<close>

lemma add_user_question_Some:
  "add_user_question store sid q sid = Some ((case store sid of None \<Rightarrow> [] | Some h \<Rightarrow> h) @ [\<lparr>role = User, content = q\<rparr>])"
  by (auto simp: add_user_question_def Let_def split: option.splits)

lemma add_user_question_other:
  "sid' \<noteq> sid \<Longrightarrow> add_user_question store sid q sid' = store sid'"
  by (auto simp: add_user_question_def Let_def split: option.splits)

lemma query_body_success:
  assumes "query_body env req st = (r, st')" "is_success r"
  shows "get_history st' (get_session_id req) =
            trim (get_history st (get_session_id req)
                   @ [\<lparr>role = User, content = get_question req\<rparr>, \<lparr>role = Assistant, content = answer_of r\<rparr>])
        \<and> (\<forall>sid. sid \<noteq> get_session_id req \<longrightarrow> get_history st' sid = get_history st sid)"
  using assms
  by (auto simp: query_body_def Let_def is_success_def answer_of_def get_history_def
        add_user_question_Some add_user_question_other
      split: if_splits sum.splits option.splits prod.splits)

lemma init_history: "initialize_rag_system env st = (x, st') \<Longrightarrow> get_history st' sid = get_history st sid"
  by (auto simp: initialize_rag_system_def Let_def get_history_def split: option.splits if_splits)

lemma query_success:
  assumes "query env req st = (r, st')" "is_success r"
  shows "get_history st' (get_session_id req) =
            trim (get_history st (get_session_id req)
                   @ [\<lparr>role = User, content = get_question req\<rparr>, \<lparr>role = Assistant, content = answer_of r\<rparr>])
        \<and> (\<forall>sid. sid \<noteq> get_session_id req \<longrightarrow> get_history st' sid = get_history st sid)"
proof (cases "qa_chain st")
  case (Some m)
  with assms have "query_body env req st = (r, st')" by (simp add: query_def)
  from query_body_success [OF this assms(2)] show ?thesis .
next
  case None
  with assms obtain ok st0 where i: "initialize_rag_system env st = (Inr ok, st0)"
    and b: "query_body env req st0 = (r, st')"
    by (auto simp: query_def is_success_def split: sum.splits prod.splits if_splits)
  from query_body_success [OF b assms(2)] init_history [OF i] show ?thesis by simp
qed

lemma stream_query_handler_not_success:
  assumes "stream_query_handler env req st = (Inl r, st1)"
  shows "\<not> is_success r"
  using stream_query_handler_error [OF assms]
  by (cases r) (auto simp: is_error_response_def is_success_def)

lemma stream_query_body_history:
  assumes "stream_query_body env req st = (Inr p, st1)"
  shows "get_history st1 (get_session_id req) = get_history st (get_session_id req) @ [\<lparr>role = User, content = get_question req\<rparr>]
       \<and> (\<forall>sid. sid \<noteq> get_session_id req \<longrightarrow> get_history st1 sid = get_history st sid)
       \<and> ps_session_id p = get_session_id req"
  using assms
  by (auto simp: stream_query_body_def Let_def get_history_def add_user_question_Some add_user_question_other
      split: if_splits sum.splits option.splits)

lemma generate_history:
  assumes "generate env p st = ((events, None), st')"
  shows "get_history st' (ps_session_id p) =
           trim (get_history st (ps_session_id p) @ [\<lparr>role = Assistant, content = concat (map token_of events)\<rparr>])
       \<and> (\<forall>sid. sid \<noteq> ps_session_id p \<longrightarrow> get_history st' sid = get_history st sid)"
proof -
  from generate_success [OF assms] obtain chunks h0 where
    e: "events = SourcesEvent (format_sources (ps_docs p)) # map TokenEvent chunks @ [EndEvent]"
    and b: "chat_history_store st (ps_session_id p) = Some h0"
    and a: "chat_history_store st' (ps_session_id p) = Some (trim (h0 @ [\<lparr>role = Assistant, content = concat chunks\<rparr>]))"
    by blast
  have t: "concat (map token_of events) = concat chunks"
    using e concat_tokens by simp
  have o: "\<forall>sid. sid \<noteq> ps_session_id p \<longrightarrow> get_history st' sid = get_history st sid"
    using assms by (auto simp: generate_def Let_def get_history_def split: prod.splits option.splits)
  from a b t o show ?thesis by (simp add: get_history_def)
qed

lemma stream_query_success:
  assumes "stream_query env req st = (r, st')" "is_success r"
  shows "get_history st' (get_session_id req) =
            trim (get_history st (get_session_id req)
                   @ [\<lparr>role = User, content = get_question req\<rparr>, \<lparr>role = Assistant, content = answer_of r\<rparr>])
        \<and> (\<forall>sid. sid \<noteq> get_session_id req \<longrightarrow> get_history st' sid = get_history st sid)"
proof -
  from assms obtain p st1 events where h: "stream_query_handler env req st = (Inr p, st1)"
    and g: "generate env p st1 = ((events, None), st')" and r: "r = EventStream events None"
    by (auto simp: stream_query_def split: prod.splits sum.splits
        dest: stream_query_handler_not_success) (auto simp: is_success_def split: option.splits)
  from h obtain st0 where b: "stream_query_body env req st0 = (Inr p, st1)"
    and i: "\<forall>sid. get_history st0 sid = get_history st sid"
    by (auto simp: stream_query_handler_def split: if_splits sum.splits prod.splits dest: init_history)
  have a: "answer_of r = concat (map token_of events)" by (simp add: r answer_of_def)
  from stream_query_body_history [OF b] generate_history [OF g] i a show ?thesis
    by auto
qed

lemma run_call_success:
  assumes "run_call env c st = (r, st')" "is_success r"
  shows "get_history st' (get_session_id (call_request c)) =
            trim (get_history st (get_session_id (call_request c))
                   @ [\<lparr>role = User, content = get_question (call_request c)\<rparr>,
                      \<lparr>role = Assistant, content = answer_of r\<rparr>])
        \<and> (\<forall>sid. sid \<noteq> get_session_id (call_request c) \<longrightarrow> get_history st' sid = get_history st sid)"
  using assms query_success stream_query_success by (cases c) auto

lemma run_call_cap:
  assumes "run_call env c st = (r, st')" "is_success r" "\<forall>sid. length (get_history st sid) \<le> 20"
  shows "\<forall>sid. length (get_history st' sid) \<le> 20"
proof
  fix sid
  from run_call_success [OF assms(1,2)] have
    a: "get_history st' (get_session_id (call_request c)) =
            trim (get_history st (get_session_id (call_request c))
                   @ [\<lparr>role = User, content = get_question (call_request c)\<rparr>,
                      \<lparr>role = Assistant, content = answer_of r\<rparr>])"
    and o: "\<forall>sid. sid \<noteq> get_session_id (call_request c) \<longrightarrow> get_history st' sid = get_history st sid"
    by blast+
  show "length (get_history st' sid) \<le> 20"
  proof (cases "sid = get_session_id (call_request c)")
    case True
    then show ?thesis using a length_trim by simp
  next
    case False
    then show ?thesis using o assms(3) by simp
  qed
qed

lemma round_trips_cap:
  "round_trips env calls st = Some st' \<Longrightarrow> \<forall>sid. length (get_history st sid) \<le> 20
     \<Longrightarrow> \<forall>sid. length (get_history st' sid) \<le> 20"
proof (induction calls arbitrary: st)
  case Nil
  then show ?case by simp
next
  case (Cons c cs)
  obtain r st1 where rc: "run_call env c st = (r, st1)" by (cases "run_call env c st")
  with Cons.prems(1) have s: "is_success r" and rest: "round_trips env cs st1 = Some st'"
    by (auto split: if_splits)
  from run_call_cap [OF rc s Cons.prems(2)] Cons.IH [OF rest] show ?case by blast
qed

lemma round_trips_snoc:
  "round_trips env (calls @ [c]) st = Some st' \<Longrightarrow>
     \<exists>st1 r. round_trips env calls st = Some st1 \<and> run_call env c st1 = (r, st') \<and> is_success r"
proof (induction calls arbitrary: st)
  case Nil
  then show ?case by (auto split: prod.splits if_splits)
next
  case (Cons c' cs)
  then show ?case by (auto split: prod.splits if_splits)
qed

text \<open>
  Claim C5, as amended. The cap is applied where the assistant message is appended, at the
  end of a successful round-trip, and not where the user message is appended. A successful
  \<open>query\<close> or \<open>stream_query\<close> call, whatever the store held before it (here: after any
  sequence of successful calls from any store), leaves in its session exactly the most
  recent 20 messages of the session's earlier history followed by the question and the
  answer the call returned, the oldest dropped first; so the session holds at most 20
  messages, and the other sessions are as they were. Hence, from a store whose sessions
  hold at most 20 messages (the empty store of a new process is one), \<open>get_history\<close>
  returns at most 20 messages for every session after each completed round-trip of a
  sequence of successful round-trips.
\<close>

theorem session_cap_after_round_trips:
  assumes "round_trips env (calls @ [c]) st = Some st'"
  shows "\<exists>st1 r. round_trips env calls st = Some st1 \<and> run_call env c st1 = (r, st') \<and> is_success r
       \<and> get_history st' (get_session_id (call_request c)) =
            (let h = get_history st1 (get_session_id (call_request c))
                       @ [\<lparr>role = User, content = get_question (call_request c)\<rparr>,
                          \<lparr>role = Assistant, content = answer_of r\<rparr>]
             in drop (length h - 20) h)
       \<and> length (get_history st' (get_session_id (call_request c))) \<le> 20
       \<and> (\<forall>sid. sid \<noteq> get_session_id (call_request c) \<longrightarrow> get_history st' sid = get_history st1 sid)
       \<and> ((\<forall>sid. length (get_history st sid) \<le> 20) \<longrightarrow> (\<forall>sid. length (get_history st' sid) \<le> 20))"
proof -
  from round_trips_snoc [OF assms] obtain st1 r where
    p: "round_trips env calls st = Some st1" and rc: "run_call env c st1 = (r, st')" and s: "is_success r"
    by blast
  let ?sid = "get_session_id (call_request c)"
  let ?h = "get_history st1 ?sid @ [\<lparr>role = User, content = get_question (call_request c)\<rparr>,
                                     \<lparr>role = Assistant, content = answer_of r\<rparr>]"
  from run_call_success [OF rc s] have a: "get_history st' ?sid = trim ?h"
    and o: "\<forall>sid. sid \<noteq> ?sid \<longrightarrow> get_history st' sid = get_history st1 sid"
    by blast+
  have d: "trim ?h = drop (length ?h - 20) ?h"
    by (simp add: trim_def)
  have l: "length (get_history st' ?sid) \<le> 20"
    using a length_trim by simp
  have b: "(\<forall>sid. length (get_history st sid) \<le> 20) \<longrightarrow> (\<forall>sid. length (get_history st' sid) \<le> 20)"
    using round_trips_cap [OF assms] by blast
  have "get_history st' ?sid = (let h = ?h in drop (length h - 20) h)"
    using a d by (simp only: Let_def)
  with p rc s l o b show ?thesis by blast
qed

subsection \<open>Evaluation at the stubbed services\<close>

lemmas eval_app = query_def query_body_def stream_query_def stream_query_handler_def stream_query_body_def
  generate_def initialize_rag_system_def qa_chain_invoke_def add_user_question_def pop_last_def trim_def
  format_sources_def get_question_def get_session_id_def get_history_def Let_def

lemma full_history_unfold:
  "full_history =
     [\<lparr>role = User, content = ''q''\<rparr>, \<lparr>role = Assistant, content = ''a''\<rparr>,
      \<lparr>role = User, content = ''q''\<rparr>, \<lparr>role = Assistant, content = ''a''\<rparr>,
      \<lparr>role = User, content = ''q''\<rparr>, \<lparr>role = Assistant, content = ''a''\<rparr>,
      \<lparr>role = User, content = ''q''\<rparr>, \<lparr>role = Assistant, content = ''a''\<rparr>,
      \<lparr>role = User, content = ''q''\<rparr>, \<lparr>role = Assistant, content = ''a''\<rparr>,
      \<lparr>role = User, content = ''q''\<rparr>, \<lparr>role = Assistant, content = ''a''\<rparr>,
      \<lparr>role = User, content = ''q''\<rparr>, \<lparr>role = Assistant, content = ''a''\<rparr>,
      \<lparr>role = User, content = ''q''\<rparr>, \<lparr>role = Assistant, content = ''a''\<rparr>,
      \<lparr>role = User, content = ''q''\<rparr>, \<lparr>role = Assistant, content = ''a''\<rparr>,
      \<lparr>role = User, content = ''q''\<rparr>, \<lparr>role = Assistant, content = ''a''\<rparr>]"
  by (simp add: full_history_def numeral_eq_Suc)

lemmas eval_stub = stub_env_def failing_env_def stub_doc_def fresh_state_def full_state_def full_history_unfold ask_def

text \<open>
  A buffered and then a streaming round-trip on a session that holds twenty-one messages:
  of the twenty-five messages, the last twenty are kept. And a first round-trip on a new
  process, whose store is empty.
\<close>

theorem session_cap_after_round_trips_witness:
  "round_trips stub_env ([Query (ask ''q2'' ''s1'')] @ [StreamQuery (ask ''q3'' ''s1'')]) overfull_state \<noteq> None
   \<and> length (get_history overfull_state ''s1'') = 21
   \<and> get_history
        (the (round_trips stub_env ([Query (ask ''q2'' ''s1'')] @ [StreamQuery (ask ''q3'' ''s1'')])
               overfull_state)) ''s1''
       = drop 5 (full_history @
           [\<lparr>role = User, content = ''q1''\<rparr>,
            \<lparr>role = User, content = ''q2''\<rparr>, \<lparr>role = Assistant, content = []\<rparr>,
            \<lparr>role = User, content = ''q3''\<rparr>, \<lparr>role = Assistant, content = ''Paris is the capital.''\<rparr>])
   \<and> round_trips stub_env ([] @ [Query (ask ''q'' ''s2'')]) fresh_state \<noteq> None
   \<and> (\<forall>sid. length (get_history fresh_state sid) \<le> 20)
   \<and> (\<forall>sid. length (get_history (the (round_trips stub_env ([] @ [Query (ask ''q'' ''s2'')]) fresh_state)) sid) \<le> 20)"
proof -
  have a: "round_trips stub_env ([Query (ask ''q2'' ''s1'')] @ [StreamQuery (ask ''q3'' ''s1'')]) overfull_state \<noteq> None
   \<and> length (get_history overfull_state ''s1'') = 21
   \<and> get_history
        (the (round_trips stub_env ([Query (ask ''q2'' ''s1'')] @ [StreamQuery (ask ''q3'' ''s1'')])
               overfull_state)) ''s1''
       = drop 5 (full_history @
           [\<lparr>role = User, content = ''q1''\<rparr>,
            \<lparr>role = User, content = ''q2''\<rparr>, \<lparr>role = Assistant, content = []\<rparr>,
            \<lparr>role = User, content = ''q3''\<rparr>, \<lparr>role = Assistant, content = ''Paris is the capital.''\<rparr>])"
    using session_cap_after_round_trips
      [of stub_env "[Query (ask ''q2'' ''s1'')]" "StreamQuery (ask ''q3'' ''s1'')" overfull_state]
    by (simp add: eval_app eval_stub overfull_state_def is_success_def)
  have f: "\<forall>sid. length (get_history fresh_state sid) \<le> 20"
    by (simp add: get_history_def fresh_state_def)
  have s: "round_trips stub_env ([] @ [Query (ask ''q'' ''s2'')]) fresh_state \<noteq> None"
    by (simp add: eval_app eval_stub is_success_def)
  then obtain st' where st': "round_trips stub_env ([] @ [Query (ask ''q'' ''s2'')]) fresh_state = Some st'"
    by blast
  from session_cap_after_round_trips [OF st'] f have "\<forall>sid. length (get_history st' sid) \<le> 20"
    by blast
  with a f s st' show ?thesis by simp
qed

text \<open>
  Claim C5 as stated fails: the append of the user message is not followed by a trim. When
  the handler of \<open>stream_query\<close> returns on a session of twenty messages, the session
  holds twenty-one; it still does when the generation then fails.
\<close>

theorem user_append_exceeds_cap:
  "length (get_history (snd (stream_query_handler stub_env (ask ''q2'' ''s1'') full_state)) ''s1'') = 21
   \<and> length (get_history (snd (stream_query failing_env (ask ''q2'' ''s1'') full_state)) ''s1'') = 21"
  by (simp add: eval_app eval_stub)

text \<open>
  Claim C1 at a failing input: on a new process, a streaming query for session \<open>s1\<close>
  whose generation raises after its first fragment. The stream ends without an end event,
  as the claim says; but the generator runs outside the handler's \<open>try\<close>, so the user
  message is not removed and the session's history ends with the unanswered question.
\<close>

theorem midstream_failure_keeps_user_message:
  "fst (stream_query failing_env (ask ''q'' ''s1'') fresh_state) =
      EventStream [SourcesEvent [\<lparr>file_name = ''notes.txt'', page_no = None\<rparr>], TokenEvent ''Paris'']
        (Some (Exception ''connection lost''))
   \<and> get_history (snd (stream_query failing_env (ask ''q'' ''s1'') fresh_state)) ''s1'' =
      [\<lparr>role = User, content = ''q''\<rparr>]"
  by (simp add: eval_app eval_stub)

text \<open>
  The buffered pipeline passes only the question to its chain: its response is the same
  whatever the session store holds.
\<close>

lemma query_ignores_session_store:
  "fst (query env req (st\<lparr>chat_history_store := s\<rparr>)) = fst (query env req (st\<lparr>chat_history_store := s'\<rparr>))"
  by (auto simp: query_def query_body_def initialize_rag_system_def Let_def add_user_question_Some
      split: option.splits sum.splits prod.splits)

text \<open>
  Claim C2 at a failing input: the buffered chain has one memory for all sessions. Session
  \<open>B\<close> has no prior message, yet the answer to its first question is computed from a
  chat history that holds the exchange of session \<open>A\<close>; without that exchange the same
  question gets another answer.
\<close>

theorem buffered_answer_uses_other_session:
  "fst (query stub_env (ask ''What is my name?'' ''B'') fresh_state)
     = JsonSuccess [] [\<lparr>file_name = ''notes.txt'', page_no = None\<rparr>]
   \<and> get_history (snd (query stub_env (ask ''My name is Bob'' ''A'') fresh_state)) ''B'' = []
   \<and> fst (query stub_env (ask ''What is my name?'' ''B'')
            (snd (query stub_env (ask ''My name is Bob'' ''A'') fresh_state)))
     = JsonSuccess ''My name is Bob'' [\<lparr>file_name = ''notes.txt'', page_no = None\<rparr>]"
  by (simp add: eval_app eval_stub)

section \<open>Properties of the tracker and the loaders\<close>

subsection \<open>The scan loop\<close>

lemma same_fs_refl: "same_fs w w"
  by (simp add: same_fs_def)

lemma same_fs_trans: "same_fs w w1 \<Longrightarrow> same_fs w1 w2 \<Longrightarrow> same_fs w w2"
  by (simp add: same_fs_def)

lemma same_fs_clock: "same_fs w (w\<lparr>clock := t\<rparr>)"
  by (simp add: same_fs_def)

lemma same_fs_hash: "same_fs w w' \<Longrightarrow> calculate_file_hash w' r = calculate_file_hash w r"
  by (auto simp: same_fs_def calculate_file_hash_def split: option.splits)

lemma hash_clock [simp]: "calculate_file_hash (w\<lparr>clock := t\<rparr>) r = calculate_file_hash w r"
  by (auto simp: calculate_file_hash_def split: option.splits)

lemma same_fs_current: "same_fs w w' \<Longrightarrow> current_files w' = current_files w"
  by (simp add: same_fs_def current_files_def)

lemma same_fs_changed: "same_fs w w' \<Longrightarrow> file_changed w' tracked r = file_changed w tracked r"
  by (simp add: file_changed_def same_fs_hash split: option.splits)

lemma get_file_metadata_Inr:
  assumes "get_file_metadata w r = Inr (meta, w')"
  shows "\<exists>f h. file_at w r = Some f \<and> calculate_file_hash w r = Inr h
           \<and> meta = \<lparr>file_size = st_size f, modified_time = st_mtime f, hash = h, last_processed = clock w\<rparr>
           \<and> w' = w\<lparr>clock := Suc (clock w)\<rparr>"
  using assms by (auto simp: get_file_metadata_def split: option.splits sum.splits)

lemma get_file_metadata_Inl:
  "get_file_metadata w r = Inl e \<Longrightarrow> calculate_file_hash w r = Inl e"
  by (auto simp: get_file_metadata_def calculate_file_hash_def split: option.splits sum.splits)

lemma calculate_file_hash_Inl: "calculate_file_hash w r = Inl e \<Longrightarrow> e = OSError"
  by (auto simp: calculate_file_hash_def split: option.splits)

text \<open>One iteration of the loop, when the scan succeeds.\<close>

lemma scan_files_Cons_Inr:
  assumes "scan_files dir (r # rest) tracked changed w = Inr res"
  shows "\<exists>h. calculate_file_hash w r = Inr h \<and>
     (if file_changed w tracked r
      then \<exists>f. file_at w r = Some f \<and>
             scan_files dir rest
               (tracked(r \<mapsto> \<lparr>file_size = st_size f, modified_time = st_mtime f, hash = h,
                               last_processed = clock w\<rparr>))
               (changed @ [path_join dir r]) (w\<lparr>clock := Suc (clock w)\<rparr>) = Inr res
      else scan_files dir rest tracked changed w = Inr res)"
proof (cases "tracked r")
  case None
  with assms obtain meta w' where m: "get_file_metadata w r = Inr (meta, w')"
    and s: "scan_files dir rest (tracked(r \<mapsto> meta)) (changed @ [path_join dir r]) w' = Inr res"
    by (auto split: sum.splits)
  from get_file_metadata_Inr [OF m] s None show ?thesis
    by (auto simp: file_changed_def)
next
  case (Some entry)
  with assms obtain h where h: "calculate_file_hash w r = Inr h"
    by (auto split: sum.splits)
  show ?thesis
  proof (cases "h = hash entry")
    case True
    with assms Some h show ?thesis by (simp add: file_changed_def)
  next
    case False
    with assms Some h obtain meta w' where m: "get_file_metadata w r = Inr (meta, w')"
      and s: "scan_files dir rest (tracked(r \<mapsto> meta)) (changed @ [path_join dir r]) w' = Inr res"
      by (auto split: sum.splits)
    from get_file_metadata_Inr [OF m] s Some h False show ?thesis
      by (auto simp: file_changed_def)
  qed
qed

lemma scan_files_same_fs:
  "scan_files dir rels tracked changed w = Inr (tracked', changed', w') \<Longrightarrow> same_fs w w'"
proof (induction rels arbitrary: tracked changed w)
  case Nil
  then show ?case by (simp add: same_fs_def)
next
  case (Cons r rest)
  from scan_files_Cons_Inr [OF Cons.prems] show ?case
    by (auto split: if_splits dest!: Cons.IH simp: same_fs_def)
qed

lemma scan_files_readable:
  "scan_files dir rels tracked changed w = Inr res \<Longrightarrow> r \<in> set rels
     \<Longrightarrow> \<exists>h. calculate_file_hash w r = Inr h"
proof (induction rels arbitrary: tracked changed w)
  case Nil
  then show ?case by simp
next
  case (Cons a rest)
  from scan_files_Cons_Inr [OF Cons.prems(1)] Cons.prems(2) show ?case
    by (auto split: if_splits dest!: Cons.IH)
qed

lemma scan_files_other:
  "scan_files dir rels tracked changed w = Inr (tracked', changed', w') \<Longrightarrow> r \<notin> set rels
     \<Longrightarrow> tracked' r = tracked r"
proof (induction rels arbitrary: tracked changed w)
  case Nil
  then show ?case by simp
next
  case (Cons a rest)
  from scan_files_Cons_Inr [OF Cons.prems(1)] Cons.prems(2) show ?case
    by (auto split: if_splits dest!: Cons.IH)
qed


lemma file_changed_upd_other [simp]: "a \<noteq> r \<Longrightarrow> file_changed w (tracked(a \<mapsto> m)) r = file_changed w tracked r"
  by (simp add: file_changed_def)

text \<open>After a scan every listed file has an entry, with the hash of its present content.\<close>

lemma scan_files_hash:
  "scan_files dir rels tracked changed w = Inr (tracked', changed', w') \<Longrightarrow> r \<in> set rels
     \<Longrightarrow> \<exists>e. tracked' r = Some e \<and> calculate_file_hash w r = Inr (hash e)"
proof (induction rels arbitrary: tracked changed w)
  case Nil
  then show ?case by simp
next
  case (Cons a rest)
  from scan_files_Cons_Inr [OF Cons.prems(1)] obtain h where h: "calculate_file_hash w a = Inr h"
    and step: "if file_changed w tracked a
      then \<exists>f. file_at w a = Some f \<and>
             scan_files dir rest
               (tracked(a \<mapsto> \<lparr>file_size = st_size f, modified_time = st_mtime f, hash = h,
                               last_processed = clock w\<rparr>))
               (changed @ [path_join dir a]) (w\<lparr>clock := Suc (clock w)\<rparr>) = Inr (tracked', changed', w')
      else scan_files dir rest tracked changed w = Inr (tracked', changed', w')"
    by blast
  show ?case
  proof (cases "r \<in> set rest")
    case True
    with step show ?thesis by (auto split: if_splits dest!: Cons.IH)
  next
    case False
    with Cons.prems(2) have ra: "r = a" by simp
    show ?thesis
    proof (cases "file_changed w tracked a")
      case True
      with step obtain f where f: "file_at w a = Some f" and
        s: "scan_files dir rest
               (tracked(a \<mapsto> \<lparr>file_size = st_size f, modified_time = st_mtime f, hash = h,
                               last_processed = clock w\<rparr>))
               (changed @ [path_join dir a]) (w\<lparr>clock := Suc (clock w)\<rparr>) = Inr (tracked', changed', w')"
        by auto
      from scan_files_other [OF s] False ra h show ?thesis by simp
    next
      case nc: False
      with step have s: "scan_files dir rest tracked changed w = Inr (tracked', changed', w')" by simp
      from nc h obtain e where "tracked a = Some e" "hash e = h"
        by (auto simp: file_changed_def split: option.splits)
      with scan_files_other [OF s] False ra h show ?thesis by simp
    qed
  qed
qed



lemma path_join_inj [simp]: "path_join dir a = path_join dir b \<longleftrightarrow> a = b"
  by (simp add: path_join_def)


text \<open>A scan of files that all have an entry with their present hash changes nothing.\<close>

lemma scan_files_no_change:
  "(\<forall>r \<in> set rels. \<exists>e. tracked r = Some e \<and> calculate_file_hash w r = Inr (hash e)) \<Longrightarrow>
     scan_files dir rels tracked changed w = Inr (tracked, changed, w)"
proof (induction rels)
  case Nil
  then show ?case by simp
next
  case (Cons a rest)
  then obtain e where "tracked a = Some e" "calculate_file_hash w a = Inr (hash e)"
    by auto
  with Cons show ?case by simp
qed

subsection \<open>A whole scan\<close>

lemma load_file_tracking_props:
  assumes "load_file_tracking w = (td, w1)"
  shows "same_fs w w1 \<and> files td = loaded_files w \<and> tracking_file w1 = tracking_file w
       \<and> (\<forall>td0. tracking_file w = Some td0 \<longrightarrow> td = td0 \<and> w1 = w)"
  using assms
  by (auto simp: load_file_tracking_def same_fs_def loaded_files_def split: option.splits)

text \<open>What a completed scan has done.\<close>

lemma check_files_changed_Inr:
  assumes "check_files_changed w dir = (Inr changed, w')"
  shows "\<exists>td w1 tracked' w2.
       load_file_tracking w = (td, w1)
     \<and> scan_files dir (current_files w) (loaded_files w) [] w1 = Inr (tracked', changed, w2)
     \<and> same_fs w w2 \<and> same_fs w w'
     \<and> tracking_file w' = Some (td\<lparr>files := tracked' |` set (current_files w), last_update := clock w2\<rparr>)"
proof -
  obtain td w1 where l: "load_file_tracking w = (td, w1)" by (cases "load_file_tracking w")
  from load_file_tracking_props [OF l] have s1: "same_fs w w1" and f: "files td = loaded_files w"
    by simp_all
  have c1: "current_files w1 = current_files w" using same_fs_current [OF s1] .
  from assms l obtain tracked' w2 where
    sc: "scan_files dir (current_files w1) (files td) [] w1 = Inr (tracked', changed, w2)"
    and w': "w' = save_file_tracking (td\<lparr>files := tracked' |` set (current_files w1)\<rparr>) w2"
    by (auto simp: check_files_changed_def split: sum.splits)
  from scan_files_same_fs [OF sc] s1 have s2: "same_fs w w2" by (rule same_fs_trans [rotated])
  have s3: "same_fs w w'" using s2 by (simp add: w' save_file_tracking_def same_fs_def)
  show ?thesis using l sc s2 s3 c1 f by (simp add: w' save_file_tracking_def)
qed

text \<open>A scan that meets a file it cannot read raises, and writes nothing.\<close>

lemma check_files_changed_Inl:
  assumes "check_files_changed w dir = (Inl e, w')"
  shows "tracking_file w' = tracking_file w"
proof -
  obtain td w1 where l: "load_file_tracking w = (td, w1)" by (cases "load_file_tracking w")
  with assms have "w' = w1" by (auto simp: check_files_changed_def split: sum.splits)
  with load_file_tracking_props [OF l] show ?thesis by simp
qed

lemma scan_files_error: "scan_files dir rels tracked changed w = Inl e \<Longrightarrow> e = OSError"
proof (induction rels arbitrary: tracked changed w)
  case Nil
  then show ?case by simp
next
  case (Cons a rest)
  then show ?case
    by (auto split: option.splits sum.splits if_splits
        dest: get_file_metadata_Inl calculate_file_hash_Inl)
qed

lemma check_files_changed_unreadable:
  assumes "r \<in> set (current_files w)" "calculate_file_hash w r = Inl e"
  shows "fst (check_files_changed w dir) = Inl OSError
       \<and> tracking_file (snd (check_files_changed w dir)) = tracking_file w"
proof -
  obtain res w' where c: "check_files_changed w dir = (res, w')" by (cases "check_files_changed w dir")
  show ?thesis
  proof (cases res)
    case (Inr changed)
    with c check_files_changed_Inr [of w dir changed w'] obtain td w1 tracked' w2 where
      l: "load_file_tracking w = (td, w1)" and
      sc: "scan_files dir (current_files w) (loaded_files w) [] w1 = Inr (tracked', changed, w2)"
      by auto
    from load_file_tracking_props [OF l] have "same_fs w w1" by simp
    from scan_files_readable [OF sc assms(1)] same_fs_hash [OF this] assms(2) show ?thesis by simp
  next
    case (Inl e')
    obtain td w1 where l: "load_file_tracking w = (td, w1)" by (cases "load_file_tracking w")
    from c Inl l have "scan_files dir (current_files w1) (files td) [] w1 = Inl e'"
      by (auto simp: check_files_changed_def split: sum.splits)
    from scan_files_error [OF this] c Inl check_files_changed_Inl [of w dir e' w'] show ?thesis by simp
  qed
qed

text \<open>A scan right after a completed scan, the files being as they were.\<close>

lemma rescan_unchanged:
  assumes "check_files_changed w dir = (Inr changed, w1)"
  shows "\<exists>td1. tracking_file w1 = Some td1 \<and> dom (files td1) \<subseteq> set (current_files w)
     \<and> check_files_changed (w1\<lparr>clock := t\<rparr>) dir =
         (Inr [], w1\<lparr>tracking_file := Some (td1\<lparr>last_update := t\<rparr>), clock := Suc t\<rparr>)"
proof -
  from check_files_changed_Inr [OF assms] obtain td w0 tracked' w2 where
    sc: "scan_files dir (current_files w) (loaded_files w) [] w0 = Inr (tracked', changed, w2)"
    and l: "load_file_tracking w = (td, w0)"
    and s1: "same_fs w w1"
    and t1: "tracking_file w1 = Some (td\<lparr>files := tracked' |` set (current_files w), last_update := clock w2\<rparr>)"
    by blast
  define td1 where "td1 = td\<lparr>files := tracked' |` set (current_files w), last_update := clock w2\<rparr>"
  define wc where "wc = w1\<lparr>clock := t\<rparr>"
  from load_file_tracking_props [OF l] have s0: "same_fs w w0" by simp
  have swc: "same_fs w wc" using s1 by (simp add: wc_def same_fs_def)
  have cur: "current_files wc = current_files w" using same_fs_current [OF swc] .
  have f1: "files td1 = tracked' |` set (current_files w)" by (simp add: td1_def)
  have ld: "load_file_tracking wc = (td1, wc)"
    using t1 by (simp add: load_file_tracking_def wc_def td1_def)
  have ok: "\<forall>r \<in> set (current_files w). \<exists>e. files td1 r = Some e \<and> calculate_file_hash wc r = Inr (hash e)"
  proof
    fix r assume r: "r \<in> set (current_files w)"
    from scan_files_hash [OF sc r] obtain e where "tracked' r = Some e" "calculate_file_hash w0 r = Inr (hash e)"
      by blast
    with r same_fs_hash [OF s0] same_fs_hash [OF swc] show "\<exists>e. files td1 r = Some e \<and> calculate_file_hash wc r = Inr (hash e)"
      by (simp add: f1)
  qed
  have nc: "scan_files dir (current_files w) (files td1) [] wc = Inr (files td1, [], wc)"
    using scan_files_no_change [OF ok] .
  have idem: "files td1 |` set (current_files w) = files td1"
    by (simp add: f1)
  have "check_files_changed wc dir = (Inr [], save_file_tracking (td1\<lparr>files := files td1\<rparr>) wc)"
    using ld nc cur idem by (simp add: check_files_changed_def)
  then have "check_files_changed wc dir = (Inr [], wc\<lparr>tracking_file := Some (td1\<lparr>last_update := t\<rparr>), clock := Suc t\<rparr>)"
    by (simp add: save_file_tracking_def wc_def)
  moreover have "wc\<lparr>tracking_file := Some (td1\<lparr>last_update := t\<rparr>), clock := Suc t\<rparr>
      = w1\<lparr>tracking_file := Some (td1\<lparr>last_update := t\<rparr>), clock := Suc t\<rparr>"
    by (simp add: wc_def)
  moreover have "dom (files td1) \<subseteq> set (current_files w)"
    by (auto simp: f1 restrict_map_def split: if_splits)
  ultimately show ?thesis using t1 by (simp add: td1_def [symmetric] wc_def)
qed

subsection \<open>Scanning twice\<close>

lemmas eval_tracker = check_files_changed_def load_file_tracking_def save_file_tracking_def
  get_file_metadata_def calculate_file_hash_def current_files_def supported_extensions_def
  path_join_def restrict_map_def

lemmas eval_worlds = stub_world_def stale_world_def unreadable_world_def

text \<open>The first scan of the stubbed directory reports its file and writes the manifest.\<close>

lemma stub_scan:
  "check_files_changed stub_world ''kb'' =
     (Inr [''kb/notes.txt''],
      stub_world\<lparr>tracking_file :=
         Some \<lparr>files = [''notes.txt'' \<mapsto> \<lparr>file_size = 3, modified_time = 100, hash = ''abc'', last_processed = 1\<rparr>],
               last_update = 2\<rparr>, clock := 3\<rparr>)"
  by (simp add: eval_tracker eval_worlds fun_eq_iff)



subsection \<open>Change detection\<close>




subsection \<open>Failures during ingestion\<close>

lemma load_specific_documents_append:
  "load_specific_documents load (ps @ qs) = load_specific_documents load ps @ load_specific_documents load qs"
  by (induction ps) simp_all

lemma load_one_failure:
  "get_file_loader p = Some l \<Longrightarrow> load l p = Inl e \<Longrightarrow> load_one load p = []"
  by (simp add: load_one_def)

text \<open>
  Claim C3, as amended. A failure to extract one file is isolated to that file:
  \<open>load_specific_documents\<close> loads the files before it and after it as if the file were not
  in the batch, and the file adds no document. Extraction does not touch the manifest,
  which the scan before it has already rewritten with the file's new entry: the next scan,
  the files being as they were, reports no file, the failing one included. A failure to
  hash one file is not isolated: the scan raises the error, reports no file, and does not
  rewrite the manifest, so the entries on disk are the ones of the scan before.
\<close>

theorem extraction_failure_isolated:
  assumes "get_file_loader p = Some l" and "load l p = Inl e"
    and "check_files_changed w dir = (Inr changed, w1)"
  shows "load_specific_documents load (ps @ p # qs) =
           load_specific_documents load ps @ load_specific_documents load qs
       \<and> fst (check_files_changed (w1\<lparr>clock := t\<rparr>) dir) = Inr []
       \<and> (\<forall>w0 r. r \<in> set (current_files w0) \<and> isl (calculate_file_hash w0 r) \<longrightarrow>
            fst (check_files_changed w0 dir) = Inl OSError
          \<and> tracking_file (snd (check_files_changed w0 dir)) = tracking_file w0)"
proof -
  have a: "load_specific_documents load (ps @ p # qs) =
           load_specific_documents load ps @ load_specific_documents load qs"
    using assms(1,2) by (simp add: load_specific_documents_append load_one_def)
  from rescan_unchanged [OF assms(3), of t] have b: "fst (check_files_changed (w1\<lparr>clock := t\<rparr>) dir) = Inr []"
    by auto
  have c: "fst (check_files_changed w0 dir) = Inl OSError
          \<and> tracking_file (snd (check_files_changed w0 dir)) = tracking_file w0"
    if "r \<in> set (current_files w0)" "isl (calculate_file_hash w0 r)" for w0 r
  proof -
    from that(2) obtain e' where "calculate_file_hash w0 r = Inl e'" by (auto simp: isl_def)
    from check_files_changed_unreadable [OF that(1) this] show ?thesis .
  qed
  from a b c show ?thesis by blast
qed

text \<open>The loaders of two text files, the extension in either case.\<close>

lemma loader_notes: "get_file_loader ''kb/notes.txt'' = Some TextLoader"
  by (simp add: get_file_loader_def splitext_ext_def basename_def lower_def lower_char_def Let_def)

lemma loader_other: "get_file_loader ''kb/other.TXT'' = Some TextLoader"
  by (simp add: get_file_loader_def splitext_ext_def basename_def lower_def lower_char_def Let_def)

lemma failing_load_notes: "failing_load TextLoader ''kb/notes.txt'' = Inl (Exception ''cannot decode'')"
  by (simp add: failing_load_def)

text \<open>
  A batch of two files, the extraction of the first failing, after the first scan of the
  stubbed directory; and the directory with the unreadable file.
\<close>

theorem extraction_failure_isolated_witness:
  "get_file_loader ''kb/notes.txt'' = Some TextLoader
   \<and> failing_load TextLoader ''kb/notes.txt'' = Inl (Exception ''cannot decode'')
   \<and> fst (check_files_changed stub_world ''kb'') = Inr [''kb/notes.txt'']
   \<and> load_specific_documents failing_load ([] @ ''kb/notes.txt'' # [''kb/other.TXT'']) =
       [\<lparr>page_content = ''kb/other.TXT'', source_file = Some ''other.TXT'',
         file_path = Some ''kb/other.TXT'', page = None\<rparr>]
   \<and> fst (check_files_changed ((snd (check_files_changed stub_world ''kb''))\<lparr>clock := 9\<rparr>) ''kb'') = Inr []
   \<and> ''bad.txt'' \<in> set (current_files unreadable_world)
   \<and> isl (calculate_file_hash unreadable_world ''bad.txt'')
   \<and> fst (check_files_changed unreadable_world ''kb'') = Inl OSError
   \<and> tracking_file (snd (check_files_changed unreadable_world ''kb'')) = tracking_file unreadable_world"
proof -
  note t = extraction_failure_isolated [where load = failing_load and ps = "[]"
      and qs = "[''kb/other.TXT'']" and t = 9, OF loader_notes failing_load_notes stub_scan]
  have m: "''bad.txt'' \<in> set (current_files unreadable_world)"
    by (simp add: current_files_def supported_extensions_def unreadable_world_def stub_world_def)
  have n: "isl (calculate_file_hash unreadable_world ''bad.txt'')"
    by (simp add: calculate_file_hash_def unreadable_world_def stub_world_def)
  from t m n have u: "fst (check_files_changed unreadable_world ''kb'') = Inl OSError
     \<and> tracking_file (snd (check_files_changed unreadable_world ''kb'')) = tracking_file unreadable_world"
    by blast
  have d: "load_specific_documents failing_load ([] @ ''kb/notes.txt'' # [''kb/other.TXT'']) =
       [\<lparr>page_content = ''kb/other.TXT'', source_file = Some ''other.TXT'',
         file_path = Some ''kb/other.TXT'', page = None\<rparr>]"
    using loader_notes loader_other by (simp add: load_one_def failing_load_def basename_def)
  from t have r: "fst (check_files_changed ((snd (check_files_changed stub_world ''kb''))\<lparr>clock := 9\<rparr>) ''kb'') = Inr []"
    by (simp add: stub_scan)
  from loader_notes failing_load_notes m n u d r show ?thesis
    by (simp add: stub_scan)
qed

text \<open>
  Claim C3 as stated fails. The file that cannot be hashed is listed first: the scan raises,
  the readable file after it is not reported, and no manifest is written. And the file whose
  extraction fails has its entry in the manifest written by the scan before the extraction:
  the next scan does not report it again.
\<close>

theorem failure_reaches_manifest:
  "fst (check_files_changed unreadable_world ''kb'') = Inl OSError
   \<and> tracking_file (snd (check_files_changed unreadable_world ''kb'')) = None
   \<and> fst (check_files_changed stub_world ''kb'') = Inr [''kb/notes.txt'']
   \<and> load_specific_documents failing_load [''kb/notes.txt''] = []
   \<and> (case tracking_file (snd (check_files_changed stub_world ''kb'')) of
        None \<Rightarrow> False
      | Some td \<Rightarrow> files td ''notes.txt'' =
          Some \<lparr>file_size = 3, modified_time = 100, hash = ''abc'', last_processed = 1\<rparr>)
   \<and> fst (check_files_changed (snd (check_files_changed stub_world ''kb'')) ''kb'') = Inr []"
proof -
  have a: "fst (check_files_changed unreadable_world ''kb'') = Inl OSError
     \<and> tracking_file (snd (check_files_changed unreadable_world ''kb'')) = None"
    by (simp add: eval_tracker eval_worlds)
  have b: "load_specific_documents failing_load [''kb/notes.txt''] = []"
    using loader_notes by (simp add: load_one_def failing_load_def)
  have c: "fst (check_files_changed (snd (check_files_changed stub_world ''kb'')) ''kb'') = Inr []"
    by (simp add: stub_scan) (simp add: eval_tracker eval_worlds)
  from a b c show ?thesis by (simp add: stub_scan)
qed

section \<open>Properties of the knowledge index\<close>

subsection \<open>Adding to a collection\<close>

text \<open>The ids given to added documents are new, so every upsert appends.\<close>

lemma next_id_above: "x \<in> set c \<Longrightarrow> iv_id x < next_id c"
  by (induction c) (auto simp: next_id_def)

lemma upsert_fresh: "\<forall>x \<in> set c. iv_id x \<noteq> iv_id e \<Longrightarrow> upsert e c = c @ [e]"
  by (induction c) auto

lemma fold_upsert_fresh:
  "\<forall>x \<in> set c. iv_id x < n \<Longrightarrow>
     foldl (\<lambda>c' e. upsert e c') c (new_entries n ds vs) = c @ new_entries n ds vs"
proof (induction n ds vs arbitrary: c rule: new_entries.induct)
  case (1 n d ds v vs)
  let ?e = "\<lparr>iv_id = n, iv_vector = v, iv_payload = d\<rparr>"
  have u: "upsert ?e c = c @ [?e]"
    using "1.prems" by (intro upsert_fresh) auto
  have "\<forall>x \<in> set (c @ [?e]). iv_id x < Suc n"
    using "1.prems" by auto
  from "1.IH" [OF this] u show ?case by simp
qed simp_all

lemma add_documents_Inr:
  "add_documents embed_text docs c =
     (case embed_documents embed_text (map page_content docs) of
        Inl e \<Rightarrow> Inl e
      | Inr vs \<Rightarrow> Inr (c @ new_entries (next_id c) docs vs))"
  using fold_upsert_fresh [of c "next_id c" docs] next_id_above
  by (auto simp: add_documents_def split: sum.splits)

lemma embed_documents_length:
  "embed_documents embed_text ts = Inr vs \<Longrightarrow> length vs = length ts"
  by (induction ts arbitrary: vs) (auto split: sum.splits)

lemma embed_documents_nth:
  "embed_documents embed_text ts = Inr vs \<Longrightarrow> i < length ts \<Longrightarrow> embed_text (ts ! i) = Inr (vs ! i)"
proof (induction ts arbitrary: vs i)
  case Nil
  then show ?case by simp
next
  case (Cons t ts)
  then show ?case by (cases i) (auto split: sum.splits)
qed

lemma new_entries_payload:
  "length vs = length ds \<Longrightarrow> map iv_payload (new_entries n ds vs) = ds \<and> map iv_vector (new_entries n ds vs) = vs"
  by (induction n ds vs rule: new_entries.induct) auto


subsection \<open>Loading and adding\<close>


subsection \<open>Evaluation at the stubbed embedding\<close>

lemmas eval_vs = initialize_or_load_vector_store_def exists_nonempty_def chroma_open_def add_to_dir_def
  add_documents_def next_id_def stored_def stub_embed_def chunk_def old_index_def Let_def


subsection \<open>The first use\<close>

text \<open>
  Claim C8. When the index directory is missing or empty, a call with no chunk list or with
  an empty one fails with the error the code raises (a \<open>ValueError\<close>; the spec's
  EmptyIndexError) and leaves the directory as it was: no empty index is created. A call
  with chunks creates a new index from them: one entry per chunk, in order, with the chunk
  as payload and the embedding of its text as vector, persisted in the directory, which
  then exists and is not empty; unless the embedding service fails, and then the call
  fails with that error.
\<close>

theorem bootstrap_needs_chunks:
  assumes "\<not> exists_nonempty d"
  shows "initialize_or_load_vector_store embed_text None d = (Inl ValueError, d)
     \<and> initialize_or_load_vector_store embed_text (Some []) d = (Inl ValueError, d)
     \<and> (case embed_documents embed_text (map page_content (x # xs)) of
          Inl e \<Rightarrow> fst (initialize_or_load_vector_store embed_text (Some (x # xs)) d) = Inl e
        | Inr vs \<Rightarrow>
            (\<exists>idx d'. initialize_or_load_vector_store embed_text (Some (x # xs)) d = (Inr idx, d')
               \<and> stored d' = idx \<and> exists_nonempty d'
               \<and> map iv_payload idx = x # xs \<and> map iv_vector idx = vs))"
proof -
  from assms have d: "d = Missing \<or> d = Dir [] None"
    by (auto simp: exists_nonempty_def split: vs_dir.splits)
  then have o: "chroma_open d = Dir [] (Some [])"
    by (auto simp: chroma_open_def)
  have a: "initialize_or_load_vector_store embed_text None d = (Inl ValueError, d)
     \<and> initialize_or_load_vector_store embed_text (Some []) d = (Inl ValueError, d)"
    using assms by (simp add: initialize_or_load_vector_store_def)
  show ?thesis
  proof (cases "embed_documents embed_text (map page_content (x # xs))")
    case (Inl e)
    with a assms o show ?thesis
      by (simp add: initialize_or_load_vector_store_def add_to_dir_def add_documents_Inr)
  next
    case (Inr vs)
    from embed_documents_length [OF Inr] have "length vs = length (x # xs)" by simp
    from new_entries_payload [OF this, of "next_id []"] Inr a assms o show ?thesis
      by (simp add: initialize_or_load_vector_store_def add_to_dir_def add_documents_Inr stored_def
          exists_nonempty_def)
  qed
qed

text \<open>A missing directory and an empty one, without chunks and with two chunks.\<close>

theorem bootstrap_needs_chunks_witness:
  "\<not> exists_nonempty Missing \<and> \<not> exists_nonempty (Dir [] None)
   \<and> initialize_or_load_vector_store stub_embed None Missing = (Inl ValueError, Missing)
   \<and> initialize_or_load_vector_store stub_embed (Some []) (Dir [] None) = (Inl ValueError, Dir [] None)
   \<and> initialize_or_load_vector_store stub_embed (Some [chunk ''Paris'', chunk ''is'']) Missing =
       (Inr [\<lparr>iv_id = 0, iv_vector = [5], iv_payload = chunk ''Paris''\<rparr>,
             \<lparr>iv_id = 1, iv_vector = [2], iv_payload = chunk ''is''\<rparr>],
        Dir [] (Some [\<lparr>iv_id = 0, iv_vector = [5], iv_payload = chunk ''Paris''\<rparr>,
                      \<lparr>iv_id = 1, iv_vector = [2], iv_payload = chunk ''is''\<rparr>]))"
  using bootstrap_needs_chunks [of Missing stub_embed "chunk ''Paris''" "[chunk ''is'']"]
    bootstrap_needs_chunks [of "Dir [] None" stub_embed "chunk ''Paris''" "[chunk ''is'']"]
  by (simp add: eval_vs)

end
